theory Spec2Isabelle
  imports Complex_Main
begin

section \<open>Numbers, optional fields and run-time errors\<close>

text \<open>
  The program is TypeScript. Its numbers are modelled as mathematical numbers: \<open>real\<close>
  for money, time, satisfaction and progress, \<open>int\<close> for tile coordinates and counts
  (ideal arithmetic: no rounding and no NaN). An optional field is an \<open>option\<close>
  (\<open>None\<close> is \<open>undefined\<close>). Reading a property of \<open>undefined\<close> raises a
  \<open>TypeError\<close> in the source; that is the only exception the modelled code can raise.
  Every call of \<open>Math.random()\<close> is an explicit argument (a draw, in \<open>[0,1)\<close>), and so
  is the wall clock \<open>Date.now() / 1000\<close>.
\<close>

datatype error = TypeError

text \<open>\<open>v || d\<close> on an optional number: \<open>undefined\<close> and \<open>0\<close> are both falsy.\<close>

definition orElse :: "'a::zero option \<Rightarrow> 'a \<Rightarrow> 'a" where
  "orElse v d = (case v of None \<Rightarrow> d | Some x \<Rightarrow> if x = 0 then d else x)"

text \<open>Truthiness of an optional number and of an optional string.\<close>

definition truthy :: "'a::zero option \<Rightarrow> bool" where
  "truthy v = (case v of None \<Rightarrow> False | Some x \<Rightarrow> x \<noteq> 0)"

definition truthyStr :: "string option \<Rightarrow> bool" where
  "truthyStr v = (case v of None \<Rightarrow> False | Some s \<Rightarrow> s \<noteq> [])"

text \<open>\<open>Math.hypot\<close> of two numbers.\<close>

definition hypot :: "real \<Rightarrow> real \<Rightarrow> real" where
  "hypot a b = sqrt (a\<^sup>2 + b\<^sup>2)"

section \<open>Configuration (aiPedestrianConfig.ts)\<close>

text \<open>
  \<open>AI_PEDESTRIAN_CONFIG\<close> is a module-level object whose fields are overwritten between
  ticks; every function that reads it takes it as its first argument. The record carries
  the fields the modelled functions read. \<open>maxBudget\<close> divides the budget in
  \<open>shouldGoShopping\<close>: the quotient of the model is that of the program when it is not 0.
\<close>

record Config =
  spawnRate :: real
  maxAIPedestrians :: nat
  initialAIPedestrians :: nat
  baseProbability :: real
  satisfactionMultiplier :: real
  budgetMultiplier :: real
  minDuration :: real
  maxDuration :: real
  minBudget :: real
  maxBudget :: real
  satisfactionGainPerPurchase :: real
  satisfactionDecayRate :: real
  searchRange :: int
  browsingSwayAmount :: real
  payingShakeAmount :: real
  averageItemPrice :: real

definition AI_PEDESTRIAN_CONFIG :: Config where
  "AI_PEDESTRIAN_CONFIG = \<lparr>
     spawnRate = 2 / 100,
     maxAIPedestrians = 100,
     initialAIPedestrians = 20,
     baseProbability = 1 / 10,
     satisfactionMultiplier = 3 / 10,
     budgetMultiplier = 2 / 10,
     minDuration = 10,
     maxDuration = 30,
     minBudget = 500,
     maxBudget = 2000,
     satisfactionGainPerPurchase = 3 / 10,
     satisfactionDecayRate = 1 / 100,
     searchRange = 10,
     browsingSwayAmount = 5,
     payingShakeAmount = 2,
     averageItemPrice = 50 \<rparr>"

text \<open>The enum \<open>AIPedestrianType\<close>: its members are strings.\<close>

type_synonym AIPedestrianType = string

definition WORKER :: AIPedestrianType where "WORKER = ''worker''"
definition SHOPPER :: AIPedestrianType where "SHOPPER = ''shopper''"
definition TOURIST :: AIPedestrianType where "TOURIST = ''tourist''"
definition COMMUTER :: AIPedestrianType where "COMMUTER = ''commuter''"
definition LEISURER :: AIPedestrianType where "LEISURER = ''leisurer''"

definition getShoppingProbabilityByType :: "AIPedestrianType \<Rightarrow> real" where
  "getShoppingProbabilityByType t =
     (if t = SHOPPER then 5 / 10
      else if t = WORKER then 15 / 100
      else if t = COMMUTER then 2 / 10
      else if t = TOURIST then 3 / 10
      else if t = LEISURER then 1 / 10
      else 15 / 100)"

section \<open>The grid\<close>

text \<open>
  A building type is one of a fixed set of strings. The field \<open>type\<close> of a building is
  \<open>buildingType\<close> here. A tile may come without a building: \<open>findNearestShop\<close> tests
  \<open>tile.building\<close> before it reads its type, the finders of gridFinders.ts do not.
\<close>

type_synonym BuildingType = string

record Building =
  buildingType :: BuildingType
  onFire :: bool
  powered :: bool
  abandoned :: bool
  constructionProgress :: real
  population :: "real option"

record Tile =
  building :: "Building option"
  zone :: string
  hasSubway :: bool

type_synonym Grid = "Tile list list"

type_synonym coord = "int \<times> int"

text \<open>\<open>a[i]\<close> on an array: \<open>undefined\<close> outside \<open>0 \<dots> length - 1\<close>.\<close>

definition nth_opt :: "'a list \<Rightarrow> int \<Rightarrow> 'a option" where
  "nth_opt xs i = (if 0 \<le> i \<and> i < int (length xs) then Some (xs ! nat i) else None)"

text \<open>
  \<open>grid[i][j]\<close> followed by a property read: a \<open>TypeError\<close> when the row \<open>grid[i]\<close> or
  the tile \<open>grid[i][j]\<close> is \<open>undefined\<close>.
\<close>

definition tileAt :: "Grid \<Rightarrow> int \<Rightarrow> int \<Rightarrow> error + Tile" where
  "tileAt grid i j =
     (case nth_opt grid i of
        None \<Rightarrow> Inl TypeError
      | Some row \<Rightarrow> (case nth_opt row j of None \<Rightarrow> Inl TypeError | Some t \<Rightarrow> Inr t))"

text \<open>
  \<open>grid[i][j].building\<close> followed by a read of one of the building's fields
  (\<open>.type\<close>, \<open>.onFire\<close>, \<dots>): a \<open>TypeError\<close> as well when the tile has no building.
\<close>

definition buildingAt :: "Grid \<Rightarrow> int \<Rightarrow> int \<Rightarrow> error + Building" where
  "buildingAt grid i j =
     (case tileAt grid i j of
        Inl e \<Rightarrow> Inl e
      | Inr t \<Rightarrow> (case building t of None \<Rightarrow> Inl TypeError | Some b \<Rightarrow> Inr b))"

text \<open>
  \<open>gridToScreen\<close>, \<open>TILE_WIDTH\<close> and \<open>TILE_HEIGHT\<close> come from modules that are not part of
  the sources at hand; they are parameters. \<open>gridToScreen proj x y\<close> stands for the call
  \<open>gridToScreen(x, y, 0, 0)\<close>.
\<close>

record Projection =
  gridToScreen :: "int \<Rightarrow> int \<Rightarrow> real \<times> real"
  TILE_WIDTH :: real
  TILE_HEIGHT :: real

section \<open>Agents (the shopping fields of \<open>Pedestrian\<close>)\<close>

text \<open>
  The fields \<open>id\<close> and \<open>state\<close> are \<open>pedId\<close> and \<open>pedState\<close>. The tile coordinates
  of an agent are whole numbers.
\<close>

record Pedestrian =
  pedId :: int
  tileX :: int
  tileY :: int
  pedState :: string
  hasBag :: bool
  activityOffsetX :: real
  activityOffsetY :: real
  isAI :: bool
  aiType :: "string option"
  isShopping :: bool
  shoppingProgress :: "real option"
  shoppingDuration :: "real option"
  currentShopX :: "int option"
  currentShopY :: "int option"
  shoppingActivity :: "string option"
  shoppingBudget :: "real option"
  itemsBought :: "int option"
  shopVisitsToday :: "int option"
  lastShoppingTime :: "real option"
  satisfactionLevel :: "real option"
  totalMoneySpent :: "real option"

section \<open>aiPedestrianSystem.ts\<close>

definition initializeAIPedestrianShopping ::
  "Config \<Rightarrow> Pedestrian \<Rightarrow> AIPedestrianType \<Rightarrow> real \<Rightarrow> Pedestrian" where
  "initializeAIPedestrianShopping cfg pedestrian t rBudget =
     pedestrian\<lparr>
       isAI := True,
       aiType := Some t,
       isShopping := False,
       shoppingProgress := Some 0,
       shoppingDuration := Some 0,
       currentShopX := None,
       currentShopY := None,
       shoppingActivity := None,
       shoppingBudget := Some (rBudget * (maxBudget cfg - minBudget cfg) + minBudget cfg),
       itemsBought := Some 0,
       shopVisitsToday := Some 0,
       lastShoppingTime := Some 0,
       satisfactionLevel := Some (5 / 10),
       totalMoneySpent := Some 0 \<rparr>"

text \<open>
  \<open>findNearestShop\<close>: the two nested \<open>for\<close> loops visit the cells
  \<open>x \<in> [max 0 (tileX - r), min grid.length (tileX + r))\<close>,
  \<open>y \<in> [max 0 (tileY - r), min grid[0].length (tileY + r))\<close>, \<open>x\<close> outermost. The inner
  bound reads \<open>grid[0].length\<close> only when the outer loop has a cell, so \<open>grid[0]\<close> exists
  then. The loop state is the pair \<open>(nearestShop, minDistance)\<close>.
\<close>

definition commercialTypes :: "BuildingType list" where
  "commercialTypes = [''shop_small'', ''shop_medium'', ''mall'', ''office_low'', ''office_high'']"

definition isShopTile :: "Tile \<Rightarrow> bool" where
  "isShopTile tile =
     (case building tile of None \<Rightarrow> False | Some b \<Rightarrow> buildingType b \<in> set commercialTypes)"

definition sqDist :: "int \<Rightarrow> int \<Rightarrow> coord \<Rightarrow> int" where
  "sqDist tx ty c = (fst c - tx)\<^sup>2 + (snd c - ty)\<^sup>2"

definition shopWindow :: "int \<Rightarrow> Pedestrian \<Rightarrow> Grid \<Rightarrow> coord list" where
  "shopWindow r pedestrian grid =
     concat (map (\<lambda>x. map (\<lambda>y. (x, y))
                   [max 0 (tileY pedestrian - r) ..
                    min (case grid of [] \<Rightarrow> 0 | row0 # _ \<Rightarrow> int (length row0))
                        (tileY pedestrian + r) - 1])
             [max 0 (tileX pedestrian - r) ..
              min (int (length grid)) (tileX pedestrian + r) - 1])"

fun shopScan ::
  "Grid \<Rightarrow> int \<Rightarrow> int \<Rightarrow> coord list \<Rightarrow> coord option \<times> int \<Rightarrow> error + (coord option \<times> int)"
  where
  "shopScan grid tx ty [] st = Inr st"
| "shopScan grid tx ty (c # cs) (nearestShop, minDistance) =
     (case tileAt grid (fst c) (snd c) of
        Inl e \<Rightarrow> Inl e
      | Inr tile \<Rightarrow>
          if isShopTile tile \<and> sqDist tx ty c < minDistance
          then shopScan grid tx ty cs (Some c, sqDist tx ty c)
          else shopScan grid tx ty cs (nearestShop, minDistance))"

definition findNearestShop :: "Config \<Rightarrow> Pedestrian \<Rightarrow> Grid \<Rightarrow> error + coord option" where
  "findNearestShop cfg pedestrian grid =
     (case shopScan grid (tileX pedestrian) (tileY pedestrian)
             (shopWindow (searchRange cfg) pedestrian grid)
             (None, searchRange cfg * searchRange cfg) of
        Inl e \<Rightarrow> Inl e
      | Inr (nearestShop, minDistance) \<Rightarrow> Inr nearestShop)"

definition totalProbability :: "Config \<Rightarrow> Pedestrian \<Rightarrow> real" where
  "totalProbability cfg pedestrian =
     getShoppingProbabilityByType (case aiType pedestrian of None \<Rightarrow> [] | Some t \<Rightarrow> t)
     + (1 - orElse (satisfactionLevel pedestrian) (5 / 10)) * satisfactionMultiplier cfg
     + min 1 (orElse (shoppingBudget pedestrian) 0 / maxBudget cfg) * budgetMultiplier cfg"

definition shouldGoShopping :: "Config \<Rightarrow> Pedestrian \<Rightarrow> real \<Rightarrow> bool" where
  "shouldGoShopping cfg pedestrian rTrigger =
     (if \<not> truthyStr (aiType pedestrian) \<or> \<not> truthy (shoppingBudget pedestrian) then False
      else rTrigger < min (5 / 10) (totalProbability cfg pedestrian))"

definition startShoppingActivity ::
  "Config \<Rightarrow> Pedestrian \<Rightarrow> Grid \<Rightarrow> real \<Rightarrow> error + Pedestrian" where
  "startShoppingActivity cfg pedestrian grid rDuration =
     (let p = pedestrian\<lparr>
                isShopping := True,
                shoppingActivity := Some ''browsing'',
                shoppingProgress := Some 0,
                shoppingDuration :=
                  Some (rDuration * (maxDuration cfg - minDuration cfg) + minDuration cfg),
                itemsBought := Some 0 \<rparr>
      in case findNearestShop cfg p grid of
           Inl e \<Rightarrow> Inl e
         | Inr None \<Rightarrow> Inr p
         | Inr (Some shopCoords) \<Rightarrow>
             Inr (p\<lparr>currentShopX := Some (fst shopCoords),
                    currentShopY := Some (snd shopCoords)\<rparr>))"

definition completeShoppingActivity ::
  "Config \<Rightarrow> Pedestrian \<Rightarrow> real \<Rightarrow> real \<Rightarrow> Pedestrian" where
  "completeShoppingActivity cfg pedestrian rItems now =
     (if \<not> isShopping pedestrian then pedestrian
      else
        let items = \<lfloor>rItems * 5\<rfloor> + 1;
            spending = of_int items * averageItemPrice cfg;
            actualSpending = min spending (orElse (shoppingBudget pedestrian) 0)
        in pedestrian\<lparr>
             shoppingBudget := Some (orElse (shoppingBudget pedestrian) 0 - actualSpending),
             itemsBought := Some items,
             totalMoneySpent := Some (orElse (totalMoneySpent pedestrian) 0 + actualSpending),
             hasBag := True,
             satisfactionLevel :=
               Some (min 1 (orElse (satisfactionLevel pedestrian) 0
                            + satisfactionGainPerPurchase cfg)),
             isShopping := False,
             shoppingProgress := Some 0,
             shoppingActivity := None,
             lastShoppingTime := Some now,
             shopVisitsToday := Some (orElse (shopVisitsToday pedestrian) 0 + 1) \<rparr>)"

text \<open>
  The draws one tick of one agent can consume (the last two are those of the paying
  animation), and the clock read at completion.
\<close>

record Draws =
  rTrigger :: real
  rDuration :: real
  rItems :: real
  now :: real
  rShakeX :: real
  rShakeY :: real

text \<open>The first statement of \<open>updateAIPedestrianShopping\<close>: the decay of satisfaction.\<close>

definition decaySatisfaction :: "Config \<Rightarrow> Pedestrian \<Rightarrow> real \<Rightarrow> Pedestrian" where
  "decaySatisfaction cfg pedestrian deltaTime =
     (case satisfactionLevel pedestrian of
        None \<Rightarrow> pedestrian
      | Some s \<Rightarrow>
          if s = 0 then pedestrian
          else pedestrian\<lparr>satisfactionLevel :=
                 Some (max 0 (s - satisfactionDecayRate cfg * deltaTime))\<rparr>)"

definition updateAIPedestrianShopping ::
  "Config \<Rightarrow> Pedestrian \<Rightarrow> Grid \<Rightarrow> real \<Rightarrow> real \<Rightarrow> Draws \<Rightarrow> error + Pedestrian" where
  "updateAIPedestrianShopping cfg pedestrian grid deltaTime gameTime draws =
     (if \<not> isAI pedestrian then Inr pedestrian
      else
        let p = decaySatisfaction cfg pedestrian deltaTime
        in case (if isShopping p then shoppingProgress p else None) of
             Some progress \<Rightarrow>
               let progress' = progress + deltaTime / orElse (shoppingDuration p) 1;
                   p' = p\<lparr>shoppingProgress := Some progress'\<rparr>
               in if progress' \<ge> 1
                  then Inr (completeShoppingActivity cfg p' (rItems draws) (now draws))
                  else Inr (p'\<lparr>hasBag := True\<rparr>)
           | None \<Rightarrow>
               if shouldGoShopping cfg p (rTrigger draws)
               then startShoppingActivity cfg p grid (rDuration draws)
               else Inr p)"

text \<open>
  \<open>getShoppingAnimationOffset\<close>; \<open>rx\<close> and \<open>ry\<close> are the two draws of the paying phase.
\<close>

definition getShoppingAnimationOffset ::
  "Config \<Rightarrow> Pedestrian \<Rightarrow> real \<Rightarrow> real \<Rightarrow> real \<Rightarrow> real \<times> real" where
  "getShoppingAnimationOffset cfg pedestrian progress rx ry =
     (if \<not> isShopping pedestrian then (0, 0)
      else if shoppingActivity pedestrian = Some ''browsing'' then
        (sin (progress * pi * 4) * browsingSwayAmount cfg,
         cos (progress * pi * 4) * (browsingSwayAmount cfg * (5 / 10)))
      else if shoppingActivity pedestrian = Some ''paying'' then
        ((rx - 5 / 10) * payingShakeAmount cfg, (ry - 5 / 10) * payingShakeAmount cfg)
      else if shoppingActivity pedestrian = Some ''carrying_bags'' then
        (sin (progress * pi * 6) * 2, cos (progress * pi * 3) * 1)
      else (0, 0))"

section \<open>aiPedestrianIntegration.ts\<close>

text \<open>
  \<open>spawnAIPedestrian\<close>: the object literal, then \<open>initializeAIPedestrianShopping\<close>. The
  appearance, path and activity fields of the literal (random colours, hat, destination)
  are not part of the record above.
\<close>

definition spawnAIPedestrian ::
  "Config \<Rightarrow> Pedestrian list \<Rightarrow> int \<Rightarrow> int \<Rightarrow> AIPedestrianType \<Rightarrow> real \<Rightarrow> Pedestrian option"
  where
  "spawnAIPedestrian cfg pedestrians x y t rBudget =
     (if length pedestrians \<ge> maxAIPedestrians cfg then None
      else
        let newPedestrian = \<lparr>
              pedId = max 0 (fold max (map pedId pedestrians) 0) + 1,
              tileX = x,
              tileY = y,
              pedState = ''walking'',
              hasBag = False,
              activityOffsetX = 0,
              activityOffsetY = 0,
              isAI = True,
              aiType = Some t,
              isShopping = False,
              shoppingProgress = Some 0,
              shoppingDuration = Some 0,
              currentShopX = None,
              currentShopY = None,
              shoppingActivity = None,
              shoppingBudget = Some 0,
              itemsBought = Some 0,
              shopVisitsToday = Some 0,
              lastShoppingTime = Some 0,
              satisfactionLevel = Some (5 / 10),
              totalMoneySpent = Some 0 \<rparr>
        in Some (initializeAIPedestrianShopping cfg newPedestrian t rBudget))"





definition clearAIPedestrians :: "Pedestrian list \<Rightarrow> Pedestrian list" where
  "clearAIPedestrians pedestrians = filter (\<lambda>p. \<not> isAI p) pedestrians"

text \<open>
  \<open>initializeAIPedestrians\<close>. Its two loops (\<open>x\<close> over the rows, \<open>y\<close> up to
  \<open>grid[0].length\<close>) stop as soon as \<open>initialAIPedestrians\<close> positions are found;
  \<open>collectSpawnPositions\<close> is their body over the cells in loop order. Then one agent is
  spawned per position, its type chosen by a draw against the cumulative weights.
\<close>

definition pedestrianNearby :: "Pedestrian list \<Rightarrow> coord \<Rightarrow> bool" where
  "pedestrianNearby pedestrians c \<longleftrightarrow>
     (\<exists>p \<in> set pedestrians.
        hypot (real_of_int (tileX p - fst c)) (real_of_int (tileY p - snd c)) < 5)"






definition setAIPedestrianSpawnRate :: "Config \<Rightarrow> real \<Rightarrow> Config" where
  "setAIPedestrianSpawnRate cfg rate = cfg\<lparr>spawnRate := max 0 (min (1 / 10) rate)\<rparr>"

section \<open>gridFinders.ts\<close>





















subsection \<open>isOverWater\<close>


subsection \<open>findConnectedWaterTiles\<close>

text \<open>
  The \<open>while\<close> loop of the breadth-first search. Its state is the visited set (the keys
  \<open>`${x},${y}`\<close>, here the coordinates themselves), the tiles collected so far and the
  queue. One call is one test of the loop condition and, if it holds, one iteration.
\<close>

definition directions4 :: "coord list" where
  "directions4 = [(-1, 0), (1, 0), (0, -1), (0, 1)]"

definition inGrid :: "int \<Rightarrow> coord \<Rightarrow> bool" where
  "inGrid gridSize c \<longleftrightarrow> \<not> (fst c < 0 \<or> fst c \<ge> gridSize \<or> snd c < 0 \<or> snd c \<ge> gridSize)"

definition unvisitedNeighbours :: "coord list \<Rightarrow> coord \<Rightarrow> coord list" where
  "unvisitedNeighbours visited c =
     filter (\<lambda>n. n \<notin> set visited) (map (\<lambda>d. (fst c + fst d, snd c + snd d)) directions4)"

text \<open>The cells inside the grid; they bound the number of iterations of the search.\<close>

definition gridBox :: "int \<Rightarrow> coord set" where
  "gridBox gridSize = {0..<gridSize} \<times> {0..<gridSize}"

lemma inGrid_box: "inGrid gridSize c \<longleftrightarrow> c \<in> gridBox gridSize"
  by (cases c) (auto simp: inGrid_def gridBox_def)

lemma finite_gridBox: "finite (gridBox n)"
  by (simp add: gridBox_def)

lemma card_box_visit:
  assumes "c \<in> gridBox n" and "c \<notin> set visited"
  shows "card (gridBox n - set (c # visited)) < card (gridBox n - set visited)"
proof -
  have e: "gridBox n - set (c # visited) = (gridBox n - set visited) - {c}" by auto
  have f: "finite (gridBox n - set visited)" by (simp add: finite_gridBox)
  have m: "c \<in> gridBox n - set visited" using assms by simp
  show ?thesis unfolding e by (rule card_Diff1_less[OF f m])
qed

lemma card_box_outside:
  "c \<notin> gridBox n \<Longrightarrow> gridBox n - set (c # visited) = gridBox n - set visited"
  by auto

function bfsLoop ::
  "Grid \<Rightarrow> int \<Rightarrow> int \<Rightarrow> coord list \<Rightarrow> coord list \<Rightarrow> coord list \<Rightarrow> error + coord list" where
  "bfsLoop grid gridSize maxTiles visited waterTiles [] = Inr waterTiles"
| "bfsLoop grid gridSize maxTiles visited waterTiles (c # queue) =
     (if \<not> int (length waterTiles) < maxTiles then Inr waterTiles
      else if c \<in> set visited then bfsLoop grid gridSize maxTiles visited waterTiles queue
      else if \<not> inGrid gridSize c
      then bfsLoop grid gridSize maxTiles (c # visited) waterTiles queue
      else (case buildingAt grid (snd c) (fst c) of
              Inl e \<Rightarrow> Inl e
            | Inr b \<Rightarrow>
                if buildingType b \<noteq> ''water''
                then bfsLoop grid gridSize maxTiles (c # visited) waterTiles queue
                else bfsLoop grid gridSize maxTiles (c # visited) (waterTiles @ [c])
                       (queue @ unvisitedNeighbours (c # visited) c)))"
  by pat_completeness auto

termination bfsLoop
proof (relation "inv_image (less_than <*lex*> less_than)
         (\<lambda>(grid, gridSize, maxTiles, visited, waterTiles, queue).
            (card (gridBox gridSize - set visited), length queue))", goal_cases)
  case 1
  show ?case by (intro wf_inv_image wf_lex_prod wf_less_than)
next
  case 2
  show ?case by simp
next
  case (3 grid gridSize maxTiles visited waterTiles c queue)
  then have "c \<notin> gridBox gridSize" by (simp add: inGrid_box)
  then show ?case by (simp add: card_box_outside del: set_simps)
next
  case (4 grid gridSize maxTiles visited waterTiles c queue b)
  then have "c \<in> gridBox gridSize" "c \<notin> set visited" by (simp_all add: inGrid_box)
  then show ?case using card_box_visit[of c gridSize visited] by (simp del: set_simps)
next
  case (5 grid gridSize maxTiles visited waterTiles c queue b)
  then have "c \<in> gridBox gridSize" "c \<notin> set visited" by (simp_all add: inGrid_box)
  then show ?case using card_box_visit[of c gridSize visited] by (simp del: set_simps)
qed

definition findConnectedWaterTiles ::
  "Grid option \<Rightarrow> int \<Rightarrow> int \<Rightarrow> int \<Rightarrow> int \<Rightarrow> error + coord list" where
  "findConnectedWaterTiles grid gridSize startTileX startTileY maxTiles =
     (case grid of
        None \<Rightarrow> Inr []
      | Some g \<Rightarrow>
          if gridSize \<le> 0 then Inr []
          else bfsLoop g gridSize maxTiles [] [] [(startTileX, startTileY)])"

subsection \<open>generateTourWaypoints\<close>

text \<open>A waypoint; its fields \<open>tileX\<close>, \<open>tileY\<close> are \<open>wpTileX\<close>, \<open>wpTileY\<close>.\<close>

record TourWaypoint =
  screenX :: real
  screenY :: real
  wpTileX :: int
  wpTileY :: int

definition makeWaypoint :: "Projection \<Rightarrow> coord \<Rightarrow> TourWaypoint" where
  "makeWaypoint proj tile =
     \<lparr>screenX = fst (gridToScreen proj (fst tile) (snd tile)) + TILE_WIDTH proj / 2,
      screenY = snd (gridToScreen proj (fst tile) (snd tile)) + TILE_HEIGHT proj / 2,
      wpTileX = fst tile,
      wpTileY = snd tile\<rparr>"

definition wpDist :: "coord \<Rightarrow> TourWaypoint \<Rightarrow> real" where
  "wpDist tile wp =
     hypot (real_of_int (fst tile - wpTileX wp)) (real_of_int (snd tile - wpTileY wp))"

definition tooClose :: "coord \<Rightarrow> TourWaypoint list \<Rightarrow> bool" where
  "tooClose tile waypoints \<longleftrightarrow> (\<exists>wp \<in> set waypoints. wpDist tile wp < 3)"

definition numWaypointsFor :: "coord list \<Rightarrow> nat" where
  "numWaypointsFor waterTiles = min 6 (max 2 (length waterTiles div 10))"

definition centerX :: "coord list \<Rightarrow> real" where
  "centerX waterTiles =
     real_of_int (fold (\<lambda>t sum. sum + fst t) waterTiles 0) / real (length waterTiles)"

definition centerY :: "coord list \<Rightarrow> real" where
  "centerY waterTiles =
     real_of_int (fold (\<lambda>t sum. sum + snd t) waterTiles 0) / real (length waterTiles)"

text \<open>An entry of \<open>tilesWithDist\<close>: the tile, its index and its distance from the centre.\<close>

type_synonym TileWithDist = "coord \<times> int \<times> real"

definition tilesWithDist :: "coord list \<Rightarrow> TileWithDist list" where
  "tilesWithDist waterTiles =
     map (\<lambda>(tile, idx).
            (tile, int idx,
             hypot (real_of_int (fst tile) - centerX waterTiles)
                   (real_of_int (snd tile) - centerY waterTiles)))
         (zip waterTiles [0 ..< length waterTiles])"

text \<open>
  The comparator of the \<open>sort\<close> adds a fresh draw to every comparison, so the order the
  sort leaves is not a function of the distances. It is the argument \<open>order\<close>: the
  positions of \<open>tilesWithDist\<close> in the order in which the sorted array holds them, a
  permutation of \<open>0 \<dots> length - 1\<close>.
\<close>

definition sortedTiles :: "coord list \<Rightarrow> nat list \<Rightarrow> TileWithDist list" where
  "sortedTiles waterTiles order = map (\<lambda>i. tilesWithDist waterTiles ! i) order"

text \<open>The first loop: the spaced selection, over the first \<open>numWaypoints\<close> sorted tiles.\<close>

fun spacedSelect ::
  "Projection \<Rightarrow> TileWithDist list \<Rightarrow> TourWaypoint list \<Rightarrow> int list
     \<Rightarrow> TourWaypoint list \<times> int list" where
  "spacedSelect proj [] waypoints usedIndices = (waypoints, usedIndices)"
| "spacedSelect proj (t # ts) waypoints usedIndices =
     (if tooClose (fst t) waypoints then spacedSelect proj ts waypoints usedIndices
      else spacedSelect proj ts (waypoints @ [makeWaypoint proj (fst t)])
             (fst (snd t) # usedIndices))"

text \<open>
  The second loop: the supplemental random fill. It draws once per iteration; \<open>rs\<close> are
  the draws still to come. \<open>None\<close>: the draws ran out while the loop condition held.
\<close>

fun randomFill ::
  "Projection \<Rightarrow> coord list \<Rightarrow> nat \<Rightarrow> real list \<Rightarrow> TourWaypoint list \<Rightarrow> int list
     \<Rightarrow> (error + TourWaypoint list) option" where
  "randomFill proj waterTiles numWaypoints [] waypoints usedIndices =
     (if length waypoints < numWaypoints \<and> length waypoints < length waterTiles then None
      else Some (Inr waypoints))"
| "randomFill proj waterTiles numWaypoints (r # rs) waypoints usedIndices =
     (if length waypoints < numWaypoints \<and> length waypoints < length waterTiles
      then
        (let randomIdx = \<lfloor>r * real (length waterTiles)\<rfloor>
         in if randomIdx \<notin> set usedIndices
            then (case nth_opt waterTiles randomIdx of
                    None \<Rightarrow> Some (Inl TypeError)
                  | Some tile \<Rightarrow>
                      randomFill proj waterTiles numWaypoints rs
                        (waypoints @ [makeWaypoint proj tile]) (randomIdx # usedIndices))
            else randomFill proj waterTiles numWaypoints rs waypoints usedIndices)
      else Some (Inr waypoints))"

definition tourFrom ::
  "Projection \<Rightarrow> coord list \<Rightarrow> nat list \<Rightarrow> real list \<Rightarrow> (error + TourWaypoint list) option"
  where
  "tourFrom proj waterTiles order rs =
     (if length waterTiles < 3 then Some (Inr [])
      else
        let numWaypoints = numWaypointsFor waterTiles;
            selected = spacedSelect proj
                         (take numWaypoints (sortedTiles waterTiles order)) [] []
        in randomFill proj waterTiles numWaypoints rs (fst selected) (snd selected))"

definition generateTourWaypoints ::
  "Projection \<Rightarrow> Grid option \<Rightarrow> int \<Rightarrow> int \<Rightarrow> int \<Rightarrow> nat list \<Rightarrow> real list
     \<Rightarrow> (error + TourWaypoint list) option" where
  "generateTourWaypoints proj grid gridSize startTileX startTileY order rs =
     (case findConnectedWaterTiles grid gridSize startTileX startTileY 200 of
        Inl e \<Rightarrow> Some (Inl e)
      | Inr waterTiles \<Rightarrow> tourFrom proj waterTiles order rs)"

subsection \<open>calculateTotalPopulation, countRoadTiles\<close>




section \<open>Notions the properties are stated with\<close>

text \<open>
  A grid covers \<open>gridSize\<close> when it has at least \<open>gridSize\<close> rows of at least \<open>gridSize\<close>
  tiles, each with a building, in its first \<open>gridSize\<close> rows and columns: the finders of
  gridFinders.ts read exactly those cells.
\<close>

definition gridCovers :: "Grid \<Rightarrow> int \<Rightarrow> bool" where
  "gridCovers grid gridSize \<longleftrightarrow>
     gridSize \<le> int (length grid) \<and>
     list_all (\<lambda>row. gridSize \<le> int (length row) \<and>
                      list_all (\<lambda>t. building t \<noteq> None) (take (nat gridSize) row))
              (take (nat gridSize) grid)"

text \<open>No row is shorter than the first one: what \<open>findNearestShop\<close> relies on.\<close>

definition rowsCoverFirst :: "Grid \<Rightarrow> bool" where
  "rowsCoverFirst grid \<longleftrightarrow>
     (case grid of [] \<Rightarrow> True | row0 # _ \<Rightarrow> list_all (\<lambda>row. length row0 \<le> length row) grid)"

text \<open>A water tile inside the grid, and the 4-neighbourhood.\<close>

definition isWaterTile :: "Grid \<Rightarrow> int \<Rightarrow> coord \<Rightarrow> bool" where
  "isWaterTile grid gridSize c \<longleftrightarrow>
     inGrid gridSize c \<and>
     (case buildingAt grid (snd c) (fst c) of
        Inl e \<Rightarrow> False
      | Inr b \<Rightarrow> buildingType b = ''water'')"

definition adjacent4 :: "coord \<Rightarrow> coord \<Rightarrow> bool" where
  "adjacent4 c c' \<longleftrightarrow> (\<exists>d \<in> set directions4. c' = (fst c + fst d, snd c + snd d))"

text \<open>
  \<open>waterReachable grid gridSize start c\<close>: there is a path from \<open>start\<close> to \<open>c\<close>, each step
  to a 4-neighbour, all of whose tiles (both ends included) are water tiles of the grid.
\<close>

inductive waterReachable :: "Grid \<Rightarrow> int \<Rightarrow> coord \<Rightarrow> coord \<Rightarrow> bool"
  for grid :: Grid and gridSize :: int and start :: coord where
  start: "isWaterTile grid gridSize start \<Longrightarrow> waterReachable grid gridSize start start"
| step: "waterReachable grid gridSize start c \<Longrightarrow> adjacent4 c c' \<Longrightarrow>
         isWaterTile grid gridSize c' \<Longrightarrow> waterReachable grid gridSize start c'"



text \<open>
  Waypoints at Euclidean distance at least 3 from each other, pair by pair, and the index
  the random fill computes from a draw.
\<close>

definition spacedApart :: "TourWaypoint list \<Rightarrow> bool" where
  "spacedApart waypoints \<longleftrightarrow>
     (\<forall>j < length waypoints. \<forall>i < j.
        3 \<le> wpDist (wpTileX (waypoints ! j), wpTileY (waypoints ! j)) (waypoints ! i))"

definition drawnIndex :: "coord list \<Rightarrow> real \<Rightarrow> int" where
  "drawnIndex waterTiles r = \<lfloor>r * real (length waterTiles)\<rfloor>"

text \<open>
  The trigger probability as the specification words it: base probability of the
  archetype, plus the two weighted factors, capped at one half.
\<close>

definition spec_triggerProbability :: "Config \<Rightarrow> AIPedestrianType \<Rightarrow> real \<Rightarrow> real \<Rightarrow> real" where
  "spec_triggerProbability cfg archetype satisfaction budget =
     min (5 / 10)
       (getShoppingProbabilityByType archetype
        + (1 - satisfaction) * satisfactionMultiplier cfg
        + min 1 (budget / maxBudget cfg) * budgetMultiplier cfg)"

section \<open>Concrete agents and grids\<close>

text \<open>
  The agent of the scenario: a shopper spawned on an empty population with the budget
  draw \<open>1/3\<close> (budget 1000, satisfaction 0.5), the same agent after a trigger with the
  duration draw \<open>0\<close> (duration 10 s), and a shopper whose budget is spent.
\<close>

definition scenarioAgent :: Pedestrian where
  "scenarioAgent = \<lparr>
     pedId = 1, tileX = 0, tileY = 0, pedState = ''walking'', hasBag = False,
     activityOffsetX = 0, activityOffsetY = 0, isAI = True, aiType = Some SHOPPER,
     isShopping = False, shoppingProgress = Some 0, shoppingDuration = Some 0,
     currentShopX = None, currentShopY = None, shoppingActivity = None,
     shoppingBudget = Some 1000, itemsBought = Some 0, shopVisitsToday = Some 0,
     lastShoppingTime = Some 0, satisfactionLevel = Some (5 / 10),
     totalMoneySpent = Some 0 \<rparr>"

definition scenarioShopper :: Pedestrian where
  "scenarioShopper = scenarioAgent\<lparr>
     isShopping := True, shoppingActivity := Some ''browsing'', shoppingProgress := Some 0,
     shoppingDuration := Some 10, itemsBought := Some 0 \<rparr>"

definition brokeShopper :: Pedestrian where
  "brokeShopper = scenarioAgent\<lparr>shoppingBudget := Some 0\<rparr>"

text \<open>A leisurer whose satisfaction has decayed to 0.\<close>

definition idleLeisurer :: Pedestrian where
  "idleLeisurer = scenarioAgent\<lparr>aiType := Some LEISURER, shoppingBudget := Some 500,
                                satisfactionLevel := Some 0\<rparr>"

definition scenarioDraws :: Draws where
  "scenarioDraws = \<lparr>rTrigger = 1 / 4, rDuration = 0, rItems = 1 / 2, now = 0,
                     rShakeX = 1 / 2, rShakeY = 1 / 2\<rparr>"

definition tileOf :: "BuildingType \<Rightarrow> Tile" where
  "tileOf t = \<lparr>building = Some \<lparr>buildingType = t, onFire = False, powered = True,
                  abandoned = False, constructionProgress = 100, population = None\<rparr>,
               zone = ''none'', hasSubway = False\<rparr>"

text \<open>
  A 2 x 2 pond with one grass tile at \<open>grid[1][0]\<close>, the 5 x 5 lake of the scenario, a
  street with two shops next to the origin, and a grid of 8 rows of 9 tiles whose only
  shop is the last tile of the last row. \<open>flatProjection\<close> is one choice of the screen
  projection; no property depends on it.
\<close>

definition pondGrid :: Grid where
  "pondGrid = [[tileOf ''water'', tileOf ''water''], [tileOf ''grass'', tileOf ''water'']]"

definition lakeGrid :: Grid where
  "lakeGrid = replicate 5 (replicate 5 (tileOf ''water''))"

definition shopStreet :: Grid where
  "shopStreet = [[tileOf ''grass'', tileOf ''shop_small'', tileOf ''grass''],
                 [tileOf ''mall'', tileOf ''grass'', tileOf ''grass'']]"




definition flatProjection :: Projection where
  "flatProjection = \<lparr>gridToScreen = (\<lambda>x y. (real_of_int (x - y) * 32, real_of_int (x + y) * 16)),
                      TILE_WIDTH = 64, TILE_HEIGHT = 32\<rparr>"

section \<open>The flood fill\<close>

lemma waterReachable_isWater:
  "waterReachable grid gs start c \<Longrightarrow> isWaterTile grid gs c"
  by (induction rule: waterReachable.induct) auto

lemma unvisitedNeighbours_adjacent:
  "n \<in> set (unvisitedNeighbours visited c) \<Longrightarrow> adjacent4 c n"
  by (auto simp: unvisitedNeighbours_def adjacent4_def)

lemma bfsLoop_inv:
  assumes "bfsLoop grid gs mt visited water queue = Inr res"
    and "int (length water) \<le> mt"
    and "set water \<subseteq> set visited" and "distinct water"
    and "\<forall>c \<in> set water. waterReachable grid gs start c"
    and "\<forall>c \<in> set queue. c = start \<or> (\<exists>w. waterReachable grid gs start w \<and> adjacent4 w c)"
  shows "int (length res) \<le> mt \<and> distinct res \<and> (\<forall>c \<in> set res. waterReachable grid gs start c)"
  using assms
proof (induction grid gs mt visited water queue rule: bfsLoop.induct)
  case (1 grid gridSize maxTiles visited waterTiles)
  then show ?case by simp
next
  case (2 grid gridSize maxTiles visited waterTiles c queue)
  note prems = "2.prems"
  have q: "\<forall>c \<in> set queue. c = start \<or> (\<exists>w. waterReachable grid gridSize start w \<and> adjacent4 w c)"
    using prems(6) by simp
  show ?case
  proof (cases "int (length waterTiles) < maxTiles")
    case False
    with prems(1) have "res = waterTiles" by simp
    with prems show ?thesis by simp
  next
    case lt: True
    show ?thesis
    proof (cases "c \<in> set visited")
      case True
      with lt prems(1) have "bfsLoop grid gridSize maxTiles visited waterTiles queue = Inr res"
        by simp
      from "2.IH"(1)[OF _ True this prems(2,3,4,5) q] lt show ?thesis by simp
    next
      case nv: False
      have sub: "set waterTiles \<subseteq> set (c # visited)" using prems(3) by auto
      show ?thesis
      proof (cases "inGrid gridSize c")
        case False
        with lt nv prems(1)
        have "bfsLoop grid gridSize maxTiles (c # visited) waterTiles queue = Inr res" by simp
        from "2.IH"(2)[OF _ nv _ this prems(2) sub prems(4,5) q] lt False show ?thesis by simp
      next
        case ig: True
        show ?thesis
        proof (cases "buildingAt grid (snd c) (fst c)")
          case (Inl e)
          with lt nv ig prems(1) show ?thesis by simp
        next
          case (Inr b)
          show ?thesis
          proof (cases "buildingType b = ''water''")
            case False
            with lt nv ig Inr prems(1)
            have "bfsLoop grid gridSize maxTiles (c # visited) waterTiles queue = Inr res" by simp
            from "2.IH"(3)[OF _ nv _ Inr _ this prems(2) sub prems(4,5) q] lt ig False
            show ?thesis by simp
          next
            case w: True
            with lt nv ig Inr prems(1)
            have r: "bfsLoop grid gridSize maxTiles (c # visited) (waterTiles @ [c])
                       (queue @ unvisitedNeighbours (c # visited) c) = Inr res" by simp
            have iw: "isWaterTile grid gridSize c" using ig Inr w by (simp add: isWaterTile_def)
            have rc: "waterReachable grid gridSize start c"
              using prems(6) iw by (auto intro: waterReachable.intros)
            have l: "int (length (waterTiles @ [c])) \<le> maxTiles" using lt by simp
            have s: "set (waterTiles @ [c]) \<subseteq> set (c # visited)" using prems(3) by auto
            have d: "distinct (waterTiles @ [c])" using prems(3,4) nv by auto
            have a: "\<forall>x \<in> set (waterTiles @ [c]). waterReachable grid gridSize start x"
              using prems(5) rc by auto
            have q': "\<forall>x \<in> set (queue @ unvisitedNeighbours (c # visited) c).
                        x = start \<or> (\<exists>w. waterReachable grid gridSize start w \<and> adjacent4 w x)"
              using q rc unvisitedNeighbours_adjacent by (metis Un_iff set_append)
            from "2.IH"(4)[OF _ nv _ Inr _ r l s d a q'] lt ig w show ?thesis by simp
          qed
        qed
      qed
    qed
  qed
qed

lemma nth_opt_Some: "0 \<le> i \<Longrightarrow> i < int (length xs) \<Longrightarrow> nth_opt xs i = Some (xs ! nat i)"
  by (simp add: nth_opt_def)

lemma gridCovers_buildingAt:
  assumes "gridCovers grid gs" "inGrid gs c"
  shows "\<exists>b. buildingAt grid (snd c) (fst c) = Inr b"
proof -
  obtain x y where c: "c = (x, y)" by (cases c)
  from assms(2) c have b: "0 \<le> x" "x < gs" "0 \<le> y" "y < gs" by (auto simp: inGrid_def)
  from assms(1) have len: "gs \<le> int (length grid)" by (simp add: gridCovers_def)
  have yin: "nat y < length (take (nat gs) grid)" using b len by simp
  then have "take (nat gs) grid ! nat y \<in> set (take (nat gs) grid)" by (rule nth_mem)
  moreover have "take (nat gs) grid ! nat y = grid ! nat y" using b by simp
  ultimately have row: "gs \<le> int (length (grid ! nat y))"
      "list_all (\<lambda>t. building t \<noteq> None) (take (nat gs) (grid ! nat y))"
    using assms(1) by (auto simp: gridCovers_def list_all_iff)
  have xin: "nat x < length (take (nat gs) (grid ! nat y))" using b row(1) by simp
  then have "take (nat gs) (grid ! nat y) ! nat x \<in> set (take (nat gs) (grid ! nat y))" by (rule nth_mem)
  moreover have "take (nat gs) (grid ! nat y) ! nat x = grid ! nat y ! nat x" using b by simp
  ultimately have bd: "building (grid ! nat y ! nat x) \<noteq> None"
    using row(2) by (auto simp: list_all_iff)
  have "nth_opt grid y = Some (grid ! nat y)" using b len by (simp add: nth_opt_def)
  moreover have "nth_opt (grid ! nat y) x = Some (grid ! nat y ! nat x)" using b row(1) by (simp add: nth_opt_def)
  ultimately show ?thesis using bd c by (auto simp: buildingAt_def tileAt_def)
qed

lemma bfsLoop_total:
  assumes "gridCovers grid gs"
  shows "\<exists>res. bfsLoop grid gs mt visited water queue = Inr res"
  using assms
proof (induction grid gs mt visited water queue rule: bfsLoop.induct)
  case (1 grid gridSize maxTiles visited waterTiles)
  then show ?case by simp
next
  case (2 grid gridSize maxTiles visited waterTiles c queue)
  show ?case
  proof (cases "int (length waterTiles) < maxTiles")
    case False
    then show ?thesis by simp
  next
    case lt: True
    show ?thesis
    proof (cases "c \<in> set visited")
      case True
      with lt "2.IH"(1)[OF _ True "2.prems"] show ?thesis by simp
    next
      case nv: False
      show ?thesis
      proof (cases "inGrid gridSize c")
        case False
        with lt nv "2.IH"(2)[OF _ nv _ "2.prems"] show ?thesis by simp
      next
        case ig: True
        from gridCovers_buildingAt[OF "2.prems" ig] obtain b where
          b: "buildingAt grid (snd c) (fst c) = Inr b" by blast
        show ?thesis
        proof (cases "buildingType b = ''water''")
          case False
          with lt nv ig b "2.IH"(3)[OF _ nv _ b _ "2.prems"] show ?thesis by simp
        next
          case True
          with lt nv ig b "2.IH"(4)[OF _ nv _ b _ "2.prems"] show ?thesis by simp
        qed
      qed
    qed
  qed
qed

section \<open>The nearest shop\<close>


lemma shopScan_total:
  assumes "\<forall>c \<in> set cs. \<exists>tile. tileAt grid (fst c) (snd c) = Inr tile"
  shows "\<exists>st'. shopScan grid tx ty cs st = Inr st'"
  using assms
proof (induction cs arbitrary: st)
  case Nil
  then show ?case by simp
next
  case (Cons c cs)
  obtain n m where st: "st = (n, m)" by (cases st)
  from Cons.prems obtain tile where t: "tileAt grid (fst c) (snd c) = Inr tile" by auto
  from Cons.prems have "\<forall>c \<in> set cs. \<exists>tile. tileAt grid (fst c) (snd c) = Inr tile" by simp
  from Cons.IH[OF this] t st show ?case by simp
qed

lemma shopWindow_bounds:
  assumes "c \<in> set (shopWindow r p grid)"
  shows "max 0 (tileX p - r) \<le> fst c \<and> fst c < min (int (length grid)) (tileX p + r) \<and>
         max 0 (tileY p - r) \<le> snd c \<and>
         snd c < min (case grid of [] \<Rightarrow> 0 | row0 # _ \<Rightarrow> int (length row0)) (tileY p + r)"
  using assms by (auto simp: shopWindow_def)

lemma shopWindow_tileAt:
  assumes "rowsCoverFirst grid" "c \<in> set (shopWindow r p grid)"
  shows "\<exists>tile. tileAt grid (fst c) (snd c) = Inr tile"
proof -
  from shopWindow_bounds[OF assms(2)] have
    x: "0 \<le> fst c" "fst c < int (length grid)" and
    y: "0 \<le> snd c" "snd c < (case grid of [] \<Rightarrow> 0 | row0 # _ \<Rightarrow> int (length row0))"
    by auto
  from x obtain row0 rest where g: "grid = row0 # rest" by (cases grid) auto
  have "grid ! nat (fst c) \<in> set grid" using x by (intro nth_mem) simp
  moreover from assms(1) g have "\<forall>row \<in> set grid. length row0 \<le> length row"
    by (simp add: rowsCoverFirst_def list_all_iff)
  ultimately have "length row0 \<le> length (grid ! nat (fst c))" by blast
  with y g have "snd c < int (length (grid ! nat (fst c)))" by (simp del: nth_Cons)
  with x y show ?thesis by (simp add: tileAt_def nth_opt_def)
qed

section \<open>The tour waypoints\<close>

lemma spacedApart_snoc:
  assumes "spacedApart wps" "\<not> tooClose tile wps"
  shows "spacedApart (wps @ [makeWaypoint proj tile])"
  unfolding spacedApart_def
proof (intro allI impI)
  fix j i assume j: "j < length (wps @ [makeWaypoint proj tile])" and i: "i < j"
  show "3 \<le> wpDist (wpTileX ((wps @ [makeWaypoint proj tile]) ! j),
                      wpTileY ((wps @ [makeWaypoint proj tile]) ! j))
              ((wps @ [makeWaypoint proj tile]) ! i)"
  proof (cases "j < length wps")
    case True
    with i assms(1) show ?thesis by (simp add: spacedApart_def nth_append)
  next
    case False
    with j have e: "j = length wps" by simp
    with i have "wps ! i \<in> set wps" by simp
    with assms(2) have "3 \<le> wpDist tile (wps ! i)" by (auto simp: tooClose_def not_less)
    with e i show ?thesis by (simp add: nth_append makeWaypoint_def)
  qed
qed

lemma spacedSelect_spaced:
  "spacedApart wps \<Longrightarrow> spacedApart (fst (spacedSelect proj ts wps used))"
  by (induction ts arbitrary: wps used) (simp_all add: spacedApart_snoc)

lemma spacedSelect_length:
  "length wps \<le> length (fst (spacedSelect proj ts wps used)) \<and>
   length (fst (spacedSelect proj ts wps used)) \<le> length wps + length ts"
proof (induction ts arbitrary: wps used)
  case Nil
  show ?case by simp
next
  case (Cons t ts)
  show ?case
    using Cons.IH[of wps used] Cons.IH[of "wps @ [makeWaypoint proj (fst t)]" "fst (snd t) # used"]
    by simp
qed

lemma spacedSelect_used:
  "length used \<le> length wps \<Longrightarrow>
   length (snd (spacedSelect proj ts wps used)) \<le> length (fst (spacedSelect proj ts wps used))"
  by (induction ts arbitrary: wps used) simp_all

lemma randomFill_result:
  assumes "randomFill proj waterTiles num rs wps used = Some (Inr res)"
    and "length wps \<le> min num (length waterTiles)"
  shows "(\<exists>extra. res = wps @ extra) \<and> length res = min num (length waterTiles)"
  using assms
proof (induction rs arbitrary: wps used)
  case Nil
  then show ?case by (auto split: if_splits)
next
  case (Cons r rs)
  show ?case
  proof (cases "length wps < num \<and> length wps < length waterTiles")
    case False
    with Cons.prems show ?thesis by auto
  next
    case c: True
    let ?i = "\<lfloor>r * real (length waterTiles)\<rfloor>"
    show ?thesis
    proof (cases "?i \<in> set used")
      case True
      with c Cons.prems(1) have "randomFill proj waterTiles num rs wps used = Some (Inr res)"
        by simp
      from Cons.IH[OF this Cons.prems(2)] show ?thesis .
    next
      case nu: False
      show ?thesis
      proof (cases "nth_opt waterTiles ?i")
        case None
        with c nu Cons.prems(1) show ?thesis by simp
      next
        case (Some tile)
        with c nu Cons.prems(1)
        have r: "randomFill proj waterTiles num rs (wps @ [makeWaypoint proj tile]) (?i # used)
                 = Some (Inr res)" by simp
        have "length (wps @ [makeWaypoint proj tile]) \<le> min num (length waterTiles)"
          using c by simp
        from Cons.IH[OF r this] show ?thesis by auto
      qed
    qed
  qed
qed

lemma drawnIndex_range:
  assumes "0 \<le> r" "r < 1" "0 < length waterTiles"
  shows "0 \<le> drawnIndex waterTiles r \<and> drawnIndex waterTiles r < int (length waterTiles)"
proof -
  have "r * real (length waterTiles) < real (length waterTiles)" using assms by simp
  then have "\<lfloor>r * real (length waterTiles)\<rfloor> < int (length waterTiles)"
    by (simp add: floor_less_iff)
  moreover have "0 \<le> \<lfloor>r * real (length waterTiles)\<rfloor>" using assms by simp
  ultimately show ?thesis by (simp add: drawnIndex_def)
qed

lemma randomFill_returns:
  assumes "\<forall>r \<in> set rs. 0 \<le> r \<and> r < 1"
    and "min num (length waterTiles) - length wps
           \<le> card (drawnIndex waterTiles ` set rs - set used)"
  shows "\<exists>res. randomFill proj waterTiles num rs wps used = Some (Inr res)"
  using assms
proof (induction rs arbitrary: wps used)
  case Nil
  then show ?case by auto
next
  case (Cons r rs)
  have rng: "\<forall>r \<in> set rs. 0 \<le> r \<and> r < 1" using Cons.prems(1) by simp
  show ?case
  proof (cases "length wps < num \<and> length wps < length waterTiles")
    case False
    then show ?thesis by auto
  next
    case c: True
    let ?i = "drawnIndex waterTiles r"
    have i: "?i = \<lfloor>r * real (length waterTiles)\<rfloor>" by (simp add: drawnIndex_def)
    show ?thesis
    proof (cases "?i \<in> set used")
      case True
      then have "drawnIndex waterTiles ` set (r # rs) - set used
                 = drawnIndex waterTiles ` set rs - set used" by auto
      with Cons.prems(2) have "min num (length waterTiles) - length wps
           \<le> card (drawnIndex waterTiles ` set rs - set used)" by simp
      from Cons.IH[OF rng this] True c i show ?thesis by simp
    next
      case nu: False
      have "0 \<le> r" "r < 1" "0 < length waterTiles" using Cons.prems(1) c by auto
      from drawnIndex_range[OF this]
      have "0 \<le> ?i" "?i < int (length waterTiles)" by simp_all
      then have nth: "nth_opt waterTiles ?i = Some (waterTiles ! nat ?i)"
        by (simp add: nth_opt_def)
      have "drawnIndex waterTiles ` set (r # rs) - set used
            \<subseteq> insert ?i (drawnIndex waterTiles ` set rs - set (?i # used))" by auto
      then have "card (drawnIndex waterTiles ` set (r # rs) - set used)
            \<le> card (insert ?i (drawnIndex waterTiles ` set rs - set (?i # used)))"
        by (intro card_mono) auto
      also have "\<dots> \<le> Suc (card (drawnIndex waterTiles ` set rs - set (?i # used)))"
        by (simp add: card_insert_if del: set_simps)
      finally have "min num (length waterTiles) - length (wps @ [makeWaypoint proj (waterTiles ! nat ?i)])
           \<le> card (drawnIndex waterTiles ` set rs - set (?i # used))"
        using Cons.prems(2) by simp
      from Cons.IH[OF rng this] nu c nth i show ?thesis by (simp add: Let_def)
    qed
  qed
qed

lemma numWaypointsFor_range:
  "2 \<le> numWaypointsFor waterTiles \<and> numWaypointsFor waterTiles \<le> 6 \<and>
   (3 \<le> length waterTiles \<longrightarrow> numWaypointsFor waterTiles \<le> length waterTiles)"
  by (auto simp: numWaypointsFor_def)

lemma tourFrom_small: "length region < 3 \<Longrightarrow> tourFrom proj region order rs = Some (Inr [])"
  by (simp add: tourFrom_def)

lemma spacedApart_Nil: "spacedApart []"
  by (simp add: spacedApart_def)

lemma tourFrom_result:
  assumes "3 \<le> length region" "tourFrom proj region order rs = Some (Inr wps)"
  shows "length wps = numWaypointsFor region \<and>
         (\<exists>extra. wps = fst (spacedSelect proj
                      (take (numWaypointsFor region) (sortedTiles region order)) [] []) @ extra) \<and>
         spacedApart (fst (spacedSelect proj
                      (take (numWaypointsFor region) (sortedTiles region order)) [] []))"
proof -
  let ?n = "numWaypointsFor region"
  let ?sel = "spacedSelect proj (take ?n (sortedTiles region order)) [] []"
  from assms have r: "randomFill proj region ?n rs (fst ?sel) (snd ?sel) = Some (Inr wps)"
    by (simp add: tourFrom_def Let_def)
  have "length (fst ?sel) \<le> length (take ?n (sortedTiles region order))"
    using spacedSelect_length[of "[]" proj "take ?n (sortedTiles region order)" "[]"] by simp
  then have "length (fst ?sel) \<le> ?n" by simp
  moreover have le: "?n \<le> length region" using numWaypointsFor_range assms(1) by blast
  ultimately have "length (fst ?sel) \<le> min ?n (length region)" by simp
  from randomFill_result[OF r this] le
  have "(\<exists>extra. wps = fst ?sel @ extra) \<and> length wps = ?n" by (simp add: min_def)
  moreover have "spacedApart (fst ?sel)" by (rule spacedSelect_spaced[OF spacedApart_Nil])
  ultimately show ?thesis by simp
qed

lemma tourFrom_returns:
  assumes "\<forall>r \<in> set rs. 0 \<le> r \<and> r < 1"
    and "numWaypointsFor region \<le> card (drawnIndex region ` set rs)"
  shows "\<exists>wps. tourFrom proj region order rs = Some (Inr wps)"
proof (cases "length region < 3")
  case True
  then show ?thesis by (simp add: tourFrom_small)
next
  case False
  let ?n = "numWaypointsFor region"
  let ?sel = "spacedSelect proj (take ?n (sortedTiles region order)) [] []"
  let ?D = "drawnIndex region ` set rs"
  have "length (snd ?sel) \<le> length (fst ?sel)" by (rule spacedSelect_used) simp
  then have cu: "card (set (snd ?sel)) \<le> length (fst ?sel)"
    using card_length[of "snd ?sel"] by simp
  have "card ?D - card (set (snd ?sel)) \<le> card (?D - set (snd ?sel))"
    by (rule diff_card_le_card_Diff) simp
  with cu assms(2) have "min ?n (length region) - length (fst ?sel) \<le> card (?D - set (snd ?sel))"
    by simp
  from randomFill_returns[OF assms(1) this] False show ?thesis
    by (simp add: tourFrom_def Let_def)
qed

section \<open>No operation raises on a grid that covers what it reads\<close>








lemma findConnectedWaterTiles_total:
  assumes "gridCovers grid gridSize"
  shows "\<exists>tiles. findConnectedWaterTiles (Some grid) gridSize sx sy maxTiles = Inr tiles"
proof -
  from bfsLoop_total[OF assms, of maxTiles "[]" "[]" "[(sx, sy)]"] obtain res where
    "bfsLoop grid gridSize maxTiles [] [] [(sx, sy)] = Inr res" by blast
  then show ?thesis by (simp add: findConnectedWaterTiles_def del: bfsLoop.simps)
qed

lemma findConnectedWaterTiles_empty:
  "findConnectedWaterTiles None gridSize sx sy maxTiles = Inr []"
  "gridSize \<le> 0 \<Longrightarrow> findConnectedWaterTiles grid gridSize sx sy maxTiles = Inr []"
  by (simp_all add: findConnectedWaterTiles_def split: option.splits)

lemma findNearestShop_total:
  assumes "rowsCoverFirst grid"
  shows "\<exists>r. findNearestShop cfg p grid = Inr r"
proof -
  have "\<forall>c \<in> set (shopWindow (searchRange cfg) p grid).
          \<exists>tile. tileAt grid (fst c) (snd c) = Inr tile"
    using shopWindow_tileAt[OF assms] by blast
  from shopScan_total[OF this] obtain st' where
    "shopScan grid (tileX p) (tileY p) (shopWindow (searchRange cfg) p grid)
       (None, searchRange cfg * searchRange cfg) = Inr st'" by blast
  then show ?thesis by (cases st') (simp add: findNearestShop_def)
qed

lemma findNearestShop_empty: "findNearestShop cfg p [] = Inr None"
  by (simp add: findNearestShop_def shopWindow_def)

lemma startShoppingActivity_total:
  assumes "rowsCoverFirst grid"
  shows "\<exists>p'. startShoppingActivity cfg p grid r = Inr p'"
proof -
  let ?q = "p\<lparr>isShopping := True, shoppingActivity := Some ''browsing'',
               shoppingProgress := Some 0,
               shoppingDuration := Some (r * (maxDuration cfg - minDuration cfg) + minDuration cfg),
               itemsBought := Some 0\<rparr>"
  from findNearestShop_total[OF assms, of cfg ?q] obtain res where
    "findNearestShop cfg ?q grid = Inr res" by blast
  then show ?thesis by (cases res) (simp_all add: startShoppingActivity_def)
qed

lemma updateAIPedestrianShopping_total:
  assumes "rowsCoverFirst grid"
  shows "\<exists>p'. updateAIPedestrianShopping cfg p grid dt gt draws = Inr p'"
  using startShoppingActivity_total[OF assms]
  by (simp add: updateAIPedestrianShopping_def Let_def split: option.splits)


lemma generateTourWaypoints_region:
  assumes "findConnectedWaterTiles grid gridSize sx sy 200 = Inr region"
  shows "generateTourWaypoints proj grid gridSize sx sy order rs = tourFrom proj region order rs"
  using assms by (simp add: generateTourWaypoints_def)

section \<open>The shopping economy\<close>

lemma scenarioAgent_spawned:
  "spawnAIPedestrian AI_PEDESTRIAN_CONFIG [] 0 0 SHOPPER (1 / 3) = Some scenarioAgent"
  by (simp add: spawnAIPedestrian_def initializeAIPedestrianShopping_def
        AI_PEDESTRIAN_CONFIG_def scenarioAgent_def)

lemma scenarioShopper_started:
  "startShoppingActivity AI_PEDESTRIAN_CONFIG scenarioAgent [] 0 = Inr scenarioShopper"
  by (simp add: startShoppingActivity_def findNearestShop_empty scenarioShopper_def
        AI_PEDESTRIAN_CONFIG_def)

lemma scenarioShopper_fields:
  "isAI scenarioShopper" "isShopping scenarioShopper"
  "shoppingBudget scenarioShopper = Some 1000"
  "satisfactionLevel scenarioShopper = Some (5 / 10)"
  "totalMoneySpent scenarioShopper = Some 0"
  "shoppingProgress scenarioShopper = Some 0"
  "shoppingDuration scenarioShopper = Some 10"
  "shoppingActivity scenarioShopper = Some ''browsing''"
  by (simp_all add: scenarioShopper_def scenarioAgent_def)

lemma scenarioAgent_fields:
  "isAI scenarioAgent" "\<not> isShopping scenarioAgent"
  "shoppingBudget scenarioAgent = Some 1000"
  "satisfactionLevel scenarioAgent = Some (5 / 10)"
  "aiType scenarioAgent = Some SHOPPER"
  "tileX scenarioAgent = 0" "tileY scenarioAgent = 0"
  by (simp_all add: scenarioAgent_def)

lemma floor_items:
  "0 \<le> (r::real) \<Longrightarrow> r < 1 \<Longrightarrow> 1 \<le> \<lfloor>r * 5\<rfloor> + 1 \<and> \<lfloor>r * 5\<rfloor> + 1 \<le> 5"
  by (simp add: floor_less_iff le_floor_iff)

text \<open>
  C1. Completing an episode never spends more than the budget the agent had, and never
  leaves a negative budget: with a draw in \<open>[0,1)\<close> the item count is between 1 and 5,
  the amount spent is the nominal price of the items clamped to the budget before (a
  missing budget counts as 0), the budget is debited by the amount spent and stays
  \<open>\<ge> 0\<close>, and the total spent is credited with the same amount.
\<close>

theorem completeShoppingActivity_spend_within_budget:
  assumes "isShopping p" and "0 \<le> r" and "r < 1"
  shows "\<exists>items spend.
      1 \<le> items \<and> items \<le> 5 \<and>
      itemsBought (completeShoppingActivity cfg p r t) = Some items \<and>
      spend = min (of_int items * averageItemPrice cfg) (orElse (shoppingBudget p) 0) \<and>
      spend \<le> orElse (shoppingBudget p) 0 \<and>
      shoppingBudget (completeShoppingActivity cfg p r t)
        = Some (orElse (shoppingBudget p) 0 - spend) \<and>
      0 \<le> orElse (shoppingBudget p) 0 - spend \<and>
      totalMoneySpent (completeShoppingActivity cfg p r t)
        = Some (orElse (totalMoneySpent p) 0 + spend)"
  using assms floor_items[of r] by (simp add: completeShoppingActivity_def Let_def)

theorem completeShoppingActivity_spend_witness:
  "isShopping scenarioShopper \<and> (0::real) \<le> 1 / 2 \<and> (1 / 2 ::real) < 1 \<and>
   (\<exists>items spend.
      1 \<le> items \<and> items \<le> 5 \<and>
      itemsBought (completeShoppingActivity AI_PEDESTRIAN_CONFIG scenarioShopper (1 / 2) 0)
        = Some items \<and>
      spend \<le> 1000 \<and>
      shoppingBudget (completeShoppingActivity AI_PEDESTRIAN_CONFIG scenarioShopper (1 / 2) 0)
        = Some (1000 - spend) \<and>
      0 \<le> 1000 - spend \<and>
      totalMoneySpent (completeShoppingActivity AI_PEDESTRIAN_CONFIG scenarioShopper (1 / 2) 0)
        = Some (0 + spend))"
proof -
  have h: "isShopping scenarioShopper" "(0::real) \<le> 1 / 2" "(1 / 2 ::real) < 1"
    by (simp_all add: scenarioShopper_fields)
  from completeShoppingActivity_spend_within_budget[OF h, of AI_PEDESTRIAN_CONFIG 0]
  obtain items spend where
    "1 \<le> items" "items \<le> 5"
    "itemsBought (completeShoppingActivity AI_PEDESTRIAN_CONFIG scenarioShopper (1 / 2) 0) = Some items"
    "spend \<le> orElse (shoppingBudget scenarioShopper) 0"
    "shoppingBudget (completeShoppingActivity AI_PEDESTRIAN_CONFIG scenarioShopper (1 / 2) 0)
        = Some (orElse (shoppingBudget scenarioShopper) 0 - spend)"
    "0 \<le> orElse (shoppingBudget scenarioShopper) 0 - spend"
    "totalMoneySpent (completeShoppingActivity AI_PEDESTRIAN_CONFIG scenarioShopper (1 / 2) 0)
        = Some (orElse (totalMoneySpent scenarioShopper) 0 + spend)"
    by blast
  then show ?thesis using h by (simp add: scenarioShopper_fields orElse_def)
qed


lemma decaySatisfaction_range:
  assumes "satisfactionLevel p = Some s" "0 \<le> s" "0 \<le> dt" "0 \<le> satisfactionDecayRate cfg"
  shows "\<exists>s'. satisfactionLevel (decaySatisfaction cfg p dt) = Some s' \<and> 0 \<le> s' \<and> s' \<le> s"
  using assms by (auto simp: decaySatisfaction_def mult_nonneg_nonneg)

lemma decaySatisfaction_other:
  "shoppingBudget (decaySatisfaction cfg p dt) = shoppingBudget p"
  "aiType (decaySatisfaction cfg p dt) = aiType p"
  "isShopping (decaySatisfaction cfg p dt) = isShopping p"
  by (auto simp: decaySatisfaction_def split: option.splits)

lemma completeShoppingActivity_range:
  assumes "satisfactionLevel p = Some s" "0 \<le> s" "s \<le> 1" "0 \<le> satisfactionGainPerPurchase cfg"
  shows "\<exists>s'. satisfactionLevel (completeShoppingActivity cfg p r t) = Some s' \<and> 0 \<le> s' \<and> s' \<le> 1"
  using assms by (auto simp: completeShoppingActivity_def Let_def orElse_def min_def)

lemma startShoppingActivity_satisfaction:
  "startShoppingActivity cfg p grid r = Inr p' \<Longrightarrow> satisfactionLevel p' = satisfactionLevel p"
  by (auto simp: startShoppingActivity_def Let_def split: sum.splits option.splits)

text \<open>
  C2. An agent whose satisfaction is in \<open>[0,1]\<close> keeps it there through every operation
  that writes it: the decay of a tick (elapsed time and decay rate not negative), the
  completion bonus (gain not negative), and a whole tick, whichever branch it takes;
  the initialisation of an agent sets it to 0.5.
\<close>

theorem satisfaction_stays_in_unit_interval:
  assumes "satisfactionLevel p = Some s" and "0 \<le> s" and "s \<le> 1" and "0 \<le> dt"
    and "0 \<le> satisfactionDecayRate cfg" and "0 \<le> satisfactionGainPerPurchase cfg"
  shows "(\<exists>s'. satisfactionLevel (decaySatisfaction cfg p dt) = Some s' \<and> 0 \<le> s' \<and> s' \<le> 1)
       \<and> (\<exists>s'. satisfactionLevel (completeShoppingActivity cfg p r t) = Some s'
                 \<and> 0 \<le> s' \<and> s' \<le> 1)
       \<and> (\<forall>p'. updateAIPedestrianShopping cfg p grid dt gt draws = Inr p'
               \<longrightarrow> (\<exists>s'. satisfactionLevel p' = Some s' \<and> 0 \<le> s' \<and> s' \<le> 1))
       \<and> (\<exists>s'. satisfactionLevel (initializeAIPedestrianShopping cfg q a rb) = Some s'
                 \<and> 0 \<le> s' \<and> s' \<le> 1)"
proof (intro conjI allI impI)
  have "satisfactionLevel (initializeAIPedestrianShopping cfg q a rb) = Some (5 / 10)"
    by (simp add: initializeAIPedestrianShopping_def)
  moreover have "(0::real) \<le> 5 / 10" "(5 / 10 :: real) \<le> 1" by simp_all
  ultimately show "\<exists>s'. satisfactionLevel (initializeAIPedestrianShopping cfg q a rb) = Some s'
             \<and> 0 \<le> s' \<and> s' \<le> 1"
    by blast
  from decaySatisfaction_range[OF assms(1,2,4,5)] obtain d where
    d: "satisfactionLevel (decaySatisfaction cfg p dt) = Some d" "0 \<le> d" "d \<le> s" by blast
  have d1: "d \<le> 1" using d assms(3) by simp
  show "\<exists>s'. satisfactionLevel (decaySatisfaction cfg p dt) = Some s' \<and> 0 \<le> s' \<and> s' \<le> 1"
    using d d1 by auto
  show "\<exists>s'. satisfactionLevel (completeShoppingActivity cfg p r t) = Some s' \<and> 0 \<le> s' \<and> s' \<le> 1"
    by (rule completeShoppingActivity_range[OF assms(1-3) assms(6)])
  fix p' assume u: "updateAIPedestrianShopping cfg p grid dt gt draws = Inr p'"
  let ?q = "decaySatisfaction cfg p dt"
  show "\<exists>s'. satisfactionLevel p' = Some s' \<and> 0 \<le> s' \<and> s' \<le> 1"
  proof (cases "isAI p")
    case False
    with u have "p' = p" by (simp add: updateAIPedestrianShopping_def)
    with assms show ?thesis by simp
  next
    case True
    show ?thesis
    proof (cases "if isShopping ?q then shoppingProgress ?q else None")
      case None
      with u True have "p' = ?q \<or> startShoppingActivity cfg ?q grid (rDuration draws) = Inr p'"
        by (auto simp: updateAIPedestrianShopping_def Let_def split: if_splits)
      then show ?thesis using d d1 startShoppingActivity_satisfaction by auto
    next
      case (Some pr)
      let ?q' = "?q\<lparr>shoppingProgress := Some (pr + dt / orElse (shoppingDuration ?q) 1)\<rparr>"
      have q': "satisfactionLevel ?q' = Some d" using d by simp
      from u True Some
      have "p' = completeShoppingActivity cfg ?q' (rItems draws) (now draws)
            \<or> p' = ?q'\<lparr>hasBag := True\<rparr>"
        by (auto simp: updateAIPedestrianShopping_def Let_def split: if_splits)
      then show ?thesis
        using completeShoppingActivity_range[OF q' d(2) d1 assms(6)] q' d d1 by auto
    qed
  qed
qed

theorem satisfaction_stays_in_unit_interval_witness:
  "satisfactionLevel scenarioShopper = Some (5 / 10) \<and> (0::real) \<le> 5 / 10 \<and> (5 / 10 ::real) \<le> 1
   \<and> (0::real) \<le> 101 / 10
   \<and> 0 \<le> satisfactionDecayRate AI_PEDESTRIAN_CONFIG
   \<and> 0 \<le> satisfactionGainPerPurchase AI_PEDESTRIAN_CONFIG
   \<and> (\<exists>p' s'. updateAIPedestrianShopping AI_PEDESTRIAN_CONFIG scenarioShopper [] (101 / 10) 0
                  scenarioDraws = Inr p'
               \<and> satisfactionLevel p' = Some s' \<and> 0 \<le> s' \<and> s' \<le> 1)"
proof -
  have h: "satisfactionLevel scenarioShopper = Some (5 / 10)" "(0::real) \<le> 5 / 10"
    "(5 / 10 ::real) \<le> 1" "(0::real) \<le> 101 / 10"
    "0 \<le> satisfactionDecayRate AI_PEDESTRIAN_CONFIG"
    "0 \<le> satisfactionGainPerPurchase AI_PEDESTRIAN_CONFIG"
    by (simp_all add: scenarioShopper_fields AI_PEDESTRIAN_CONFIG_def)
  have "rowsCoverFirst []" by (simp add: rowsCoverFirst_def)
  from updateAIPedestrianShopping_total[OF this] obtain p' where
    u: "updateAIPedestrianShopping AI_PEDESTRIAN_CONFIG scenarioShopper [] (101 / 10) 0
          scenarioDraws = Inr p'" by blast
  from satisfaction_stays_in_unit_interval[OF h, where grid = "[]" and gt = 0
         and draws = scenarioDraws] u h
  show ?thesis by blast
qed

text \<open>
  C9. The scenario: an agent with budget 1000 and satisfaction 0.5 in an episode of
  duration 10 s, advanced by one tick of 10.1 s. The episode completes in that tick
  (shopping ends, progress is back at 0); the item count is between 1 and 5; the total
  spent (0 before) is items times 50, which the cap of 1000 does not cut; satisfaction
  is \<open>min 1 (max 0 (0.5 - 0.01 * 10.1) + 0.3) = 0.699\<close>: decay first, bonus second.
\<close>

theorem scenario_tick_completes_episode:
  assumes "isAI p" and "isShopping p" and "shoppingBudget p = Some 1000"
    and "satisfactionLevel p = Some (5 / 10)" and "shoppingProgress p = Some 0"
    and "shoppingDuration p = Some 10" and "totalMoneySpent p = Some 0"
    and "0 \<le> rItems draws" and "rItems draws < 1"
  shows "\<exists>p' items.
       updateAIPedestrianShopping AI_PEDESTRIAN_CONFIG p grid (101 / 10) gt draws = Inr p'
     \<and> \<not> isShopping p' \<and> shoppingProgress p' = Some 0
     \<and> itemsBought p' = Some items \<and> 1 \<le> items \<and> items \<le> 5
     \<and> totalMoneySpent p' = Some (min (of_int items * 50) 1000)
     \<and> totalMoneySpent p' = Some (of_int items * 50)
     \<and> satisfactionLevel p' = Some (min 1 (max 0 (5 / 10 - (1 / 100) * (101 / 10)) + 3 / 10))
     \<and> satisfactionLevel p' = Some (699 / 1000)"
proof -
  have fl: "1 \<le> \<lfloor>rItems draws * 5\<rfloor> + 1" "\<lfloor>rItems draws * 5\<rfloor> + 1 \<le> 5"
    using floor_items[OF assms(8,9)] by auto
  then have "real_of_int (\<lfloor>rItems draws * 5\<rfloor> + 1) * 50 \<le> 1000" by simp
  then show ?thesis
    using assms fl
    by (simp add: updateAIPedestrianShopping_def decaySatisfaction_def
          completeShoppingActivity_def Let_def AI_PEDESTRIAN_CONFIG_def orElse_def)
qed

theorem scenario_tick_witness:
  "isAI scenarioShopper \<and> isShopping scenarioShopper
   \<and> shoppingBudget scenarioShopper = Some 1000
   \<and> satisfactionLevel scenarioShopper = Some (5 / 10)
   \<and> shoppingProgress scenarioShopper = Some 0
   \<and> shoppingDuration scenarioShopper = Some 10
   \<and> totalMoneySpent scenarioShopper = Some 0
   \<and> 0 \<le> rItems scenarioDraws \<and> rItems scenarioDraws < 1
   \<and> (\<exists>p'. updateAIPedestrianShopping AI_PEDESTRIAN_CONFIG scenarioShopper [] (101 / 10) 0
               scenarioDraws = Inr p'
        \<and> \<not> isShopping p' \<and> itemsBought p' = Some 3 \<and> totalMoneySpent p' = Some 150
        \<and> shoppingBudget p' = Some 850 \<and> satisfactionLevel p' = Some (699 / 1000))"
proof -
  have h: "isAI scenarioShopper" "isShopping scenarioShopper"
    "shoppingBudget scenarioShopper = Some 1000"
    "satisfactionLevel scenarioShopper = Some (5 / 10)"
    "shoppingProgress scenarioShopper = Some 0"
    "shoppingDuration scenarioShopper = Some 10"
    "totalMoneySpent scenarioShopper = Some 0"
    "0 \<le> rItems scenarioDraws" "rItems scenarioDraws < 1"
    by (simp_all add: scenarioShopper_fields scenarioDraws_def)
  from scenario_tick_completes_episode[OF h, of "[]" 0] obtain p' items where
    u: "updateAIPedestrianShopping AI_PEDESTRIAN_CONFIG scenarioShopper [] (101 / 10) 0
          scenarioDraws = Inr p'"
    and r: "\<not> isShopping p'" "satisfactionLevel p' = Some (699 / 1000)" by blast
  have e: "itemsBought p' = Some 3" "totalMoneySpent p' = Some 150" "shoppingBudget p' = Some 850"
    using u
    by (auto simp: updateAIPedestrianShopping_def decaySatisfaction_def
          completeShoppingActivity_def Let_def AI_PEDESTRIAN_CONFIG_def orElse_def
          scenarioShopper_fields scenarioDraws_def)
  from h u r e show ?thesis by blast
qed

text \<open>
  C10. An agent that is not shopping and has no budget (missing or 0) or no archetype tag
  (missing or empty) never starts an episode: the trigger decision is false for every
  draw, and a tick leaves the agent not shopping, whatever its satisfaction.
\<close>

theorem no_budget_or_archetype_never_starts:
  assumes "\<not> isShopping p"
    and "shoppingBudget p = None \<or> shoppingBudget p = Some 0
         \<or> aiType p = None \<or> aiType p = Some []"
  shows "\<not> shouldGoShopping cfg p r \<and>
     (\<exists>p'. updateAIPedestrianShopping cfg p grid dt gt draws = Inr p' \<and> \<not> isShopping p')"
proof -
  have ng: "\<not> shouldGoShopping cfg q r'"
    if "shoppingBudget q = shoppingBudget p" "aiType q = aiType p" for q r'
    using assms(2) that by (auto simp: shouldGoShopping_def truthy_def truthyStr_def)
  show ?thesis
    using ng[of p r] ng[OF decaySatisfaction_other(1,2)] decaySatisfaction_other(3)[of cfg p dt]
      assms(1)
    by (auto simp: updateAIPedestrianShopping_def Let_def)
qed

theorem no_budget_never_starts_witness:
  "\<not> isShopping brokeShopper \<and> shoppingBudget brokeShopper = Some 0
   \<and> \<not> shouldGoShopping AI_PEDESTRIAN_CONFIG brokeShopper 0
   \<and> (\<exists>p'. updateAIPedestrianShopping AI_PEDESTRIAN_CONFIG brokeShopper shopStreet 1 0
               scenarioDraws = Inr p' \<and> \<not> isShopping p')"
proof -
  have h: "\<not> isShopping brokeShopper" "shoppingBudget brokeShopper = Some 0"
    by (simp_all add: brokeShopper_def scenarioAgent_def)
  from h(2) have "shoppingBudget brokeShopper = None \<or> shoppingBudget brokeShopper = Some 0
         \<or> aiType brokeShopper = None \<or> aiType brokeShopper = Some []" by simp
  from no_budget_or_archetype_never_starts[OF h(1) this, of AI_PEDESTRIAN_CONFIG 0 shopStreet 1 0 scenarioDraws] h
  show ?thesis by blast
qed


text \<open>
  C4, as the specification states it, fails: a shopper with budget 0 and satisfaction 0.5
  has the stated probability \<open>min 0.5 (0.5 + 0.15 + 0) = 0.5\<close>, so the draw \<open>0.25\<close> would
  trigger an episode; the decision is false.
\<close>

theorem trigger_probability_counterexample:
  "\<not> (shouldGoShopping AI_PEDESTRIAN_CONFIG brokeShopper (1 / 4)
       \<longleftrightarrow> 1 / 4 < spec_triggerProbability AI_PEDESTRIAN_CONFIG SHOPPER (5 / 10) 0)"
  by (simp add: shouldGoShopping_def brokeShopper_def scenarioAgent_def truthy_def
        spec_triggerProbability_def getShoppingProbabilityByType_def AI_PEDESTRIAN_CONFIG_def)

text \<open>
  C4, amended. For an agent with an archetype tag, a budget that is not 0 and a
  satisfaction that is not 0 (and \<open>maxBudget\<close>, the divisor, not 0), the trigger decision
  is the draw falling below
  \<open>min 0.5 (base archetype + (1 - satisfaction) * satisfactionWeight
  + min 1 (budget / maxBudget) * budgetWeight)\<close>; that probability is at most 0.5, and
  for no agent at all does a draw of 0.5 or more trigger an episode. An agent without
  an archetype tag, or without a budget, is never triggered.
\<close>

theorem trigger_probability_formula:
  "(aiType p = Some t \<and> t \<noteq> [] \<and> shoppingBudget p = Some b \<and> b \<noteq> 0 \<and>
      satisfactionLevel p = Some s \<and> s \<noteq> 0 \<and> maxBudget cfg \<noteq> 0
      \<longrightarrow> (shouldGoShopping cfg p r \<longleftrightarrow> r < spec_triggerProbability cfg t s b))
   \<and> spec_triggerProbability cfg t s b \<le> 5 / 10
   \<and> (shouldGoShopping cfg p r \<longrightarrow> r < 5 / 10)
   \<and> (\<not> truthyStr (aiType p) \<or> \<not> truthy (shoppingBudget p)
        \<longrightarrow> \<not> shouldGoShopping cfg p r)"
proof (intro conjI impI)
  show "\<not> shouldGoShopping cfg p r"
    if "\<not> truthyStr (aiType p) \<or> \<not> truthy (shoppingBudget p)"
    using that by (simp add: shouldGoShopping_def)
  show "spec_triggerProbability cfg t s b \<le> 5 / 10"
    unfolding spec_triggerProbability_def by (rule min.cobounded1)
  show "r < 5 / 10" if "shouldGoShopping cfg p r"
    using that by (simp add: shouldGoShopping_def split: if_splits)
  show "shouldGoShopping cfg p r \<longleftrightarrow> r < spec_triggerProbability cfg t s b"
    if "aiType p = Some t \<and> t \<noteq> [] \<and> shoppingBudget p = Some b \<and> b \<noteq> 0 \<and>
        satisfactionLevel p = Some s \<and> s \<noteq> 0 \<and> maxBudget cfg \<noteq> 0"
    using that
    by (simp add: shouldGoShopping_def spec_triggerProbability_def totalProbability_def
          truthy_def truthyStr_def orElse_def)
qed

theorem trigger_probability_witness:
  "aiType scenarioAgent = Some SHOPPER \<and> SHOPPER \<noteq> []
   \<and> shoppingBudget scenarioAgent = Some 1000 \<and> (1000::real) \<noteq> 0
   \<and> satisfactionLevel scenarioAgent = Some (5 / 10) \<and> (5 / 10 ::real) \<noteq> 0
   \<and> maxBudget AI_PEDESTRIAN_CONFIG \<noteq> 0
   \<and> spec_triggerProbability AI_PEDESTRIAN_CONFIG SHOPPER (5 / 10) 1000 = 5 / 10
   \<and> shouldGoShopping AI_PEDESTRIAN_CONFIG scenarioAgent (1 / 4)
   \<and> \<not> shouldGoShopping AI_PEDESTRIAN_CONFIG scenarioAgent (1 / 2)"
proof -
  have h: "aiType scenarioAgent = Some SHOPPER \<and> SHOPPER \<noteq> []
   \<and> shoppingBudget scenarioAgent = Some 1000 \<and> (1000::real) \<noteq> 0
   \<and> satisfactionLevel scenarioAgent = Some (5 / 10) \<and> (5 / 10 ::real) \<noteq> 0
   \<and> maxBudget AI_PEDESTRIAN_CONFIG \<noteq> 0"
    by (simp add: scenarioAgent_fields SHOPPER_def AI_PEDESTRIAN_CONFIG_def)
  have v: "spec_triggerProbability AI_PEDESTRIAN_CONFIG SHOPPER (5 / 10) 1000 = 5 / 10"
    by (simp add: spec_triggerProbability_def getShoppingProbabilityByType_def
          AI_PEDESTRIAN_CONFIG_def)
  from trigger_probability_formula[of scenarioAgent SHOPPER 1000 "5 / 10"
         AI_PEDESTRIAN_CONFIG "1 / 4"] h v
  have a: "shouldGoShopping AI_PEDESTRIAN_CONFIG scenarioAgent (1 / 4)" by simp
  from trigger_probability_formula[of scenarioAgent SHOPPER 1000 "5 / 10"
         AI_PEDESTRIAN_CONFIG "1 / 2"] h v
  have b: "\<not> shouldGoShopping AI_PEDESTRIAN_CONFIG scenarioAgent (1 / 2)" by simp
  from h v a b show ?thesis by simp
qed

text \<open>
  The satisfaction term at satisfaction 0: \<open>satisfactionLevel || 0.5\<close> reads 0 as
  missing, so a leisurer with budget 500 and satisfaction 0 gets 0.1 + 0.15 + 0.05 = 0.3
  where the formula with satisfaction 0 gives 0.45.
\<close>

lemma zero_satisfaction_reads_as_half:
  "totalProbability AI_PEDESTRIAN_CONFIG idleLeisurer = 3 / 10"
  "spec_triggerProbability AI_PEDESTRIAN_CONFIG LEISURER 0 500 = 45 / 100"
  "\<not> shouldGoShopping AI_PEDESTRIAN_CONFIG idleLeisurer (4 / 10)"
  by (simp_all add: shouldGoShopping_def totalProbability_def idleLeisurer_def
        scenarioAgent_def truthy_def truthyStr_def orElse_def spec_triggerProbability_def
        getShoppingProbabilityByType_def AI_PEDESTRIAN_CONFIG_def
        LEISURER_def SHOPPER_def WORKER_def COMMUTER_def TOURIST_def)

text \<open>
  C3. The phase of a shopping agent does not follow the bands of its progress. The
  scenario's shopper (phase browsing, duration 10 s) after a tick of 5 s is at progress
  0.5, inside the paying band, and still browsing; the offset it gets is the browsing
  sway \<open>(sin (0.5 * 4 pi) * 5, cos (0.5 * 4 pi) * 2.5) = (0, 2.5)\<close>, outside the range of
  the paying shake, whose two components lie in \<open>[-1, 1)\<close>.
\<close>

theorem phase_stays_browsing_in_paying_band:
  "\<exists>p'. updateAIPedestrianShopping AI_PEDESTRIAN_CONFIG scenarioShopper [] 5 0 scenarioDraws
          = Inr p'
     \<and> isShopping p' \<and> shoppingProgress p' = Some (5 / 10)
     \<and> shoppingActivity p' = Some ''browsing''
     \<and> getShoppingAnimationOffset AI_PEDESTRIAN_CONFIG p' (5 / 10) (1 / 2) (1 / 2) = (0, 5 / 2)"
  by (simp add: updateAIPedestrianShopping_def decaySatisfaction_def scenarioShopper_fields
        Let_def orElse_def getShoppingAnimationOffset_def AI_PEDESTRIAN_CONFIG_def)

lemma update_keeps_phase:
  assumes "isAI p" "isShopping p" "shoppingProgress p = Some pr"
    and "pr + dt / orElse (shoppingDuration p) 1 < 1"
  shows "\<exists>p'. updateAIPedestrianShopping cfg p grid dt gt draws = Inr p'
         \<and> shoppingActivity p' = shoppingActivity p \<and> isShopping p'"
  using assms
  by (auto simp: updateAIPedestrianShopping_def decaySatisfaction_def Let_def split: option.splits)


section \<open>The spatial queries\<close>

text \<open>
  C6. The flood fill returns at most \<open>maxTiles\<close> tiles (\<open>maxTiles\<close> not negative), no tile
  twice, each of them a water tile inside the grid that a path of 4-connected water
  tiles joins to the start; it does return a list on every grid that covers \<open>gridSize\<close>,
  and the empty list when there is no grid.
\<close>

theorem findConnectedWaterTiles_region:
  assumes "0 \<le> maxTiles"
  shows "(\<forall>tiles. findConnectedWaterTiles (Some grid) gridSize sx sy maxTiles = Inr tiles \<longrightarrow>
            int (length tiles) \<le> maxTiles \<and> distinct tiles \<and>
            (\<forall>c \<in> set tiles. inGrid gridSize c \<and> isWaterTile grid gridSize c \<and>
                               waterReachable grid gridSize (sx, sy) c))
       \<and> (gridCovers grid gridSize \<longrightarrow>
            (\<exists>tiles. findConnectedWaterTiles (Some grid) gridSize sx sy maxTiles = Inr tiles))
       \<and> findConnectedWaterTiles None gridSize sx sy maxTiles = Inr []"
proof (intro conjI)
  show "\<forall>tiles. findConnectedWaterTiles (Some grid) gridSize sx sy maxTiles = Inr tiles \<longrightarrow>
            int (length tiles) \<le> maxTiles \<and> distinct tiles \<and>
            (\<forall>c \<in> set tiles. inGrid gridSize c \<and> isWaterTile grid gridSize c \<and>
                               waterReachable grid gridSize (sx, sy) c)"
  proof (intro allI impI)
    fix tiles
    assume a: "findConnectedWaterTiles (Some grid) gridSize sx sy maxTiles = Inr tiles"
    show "int (length tiles) \<le> maxTiles \<and> distinct tiles \<and>
          (\<forall>c \<in> set tiles. inGrid gridSize c \<and> isWaterTile grid gridSize c \<and>
                             waterReachable grid gridSize (sx, sy) c)"
    proof (cases "gridSize \<le> 0")
      case True
      with a have "tiles = []" by (simp add: findConnectedWaterTiles_def)
      with assms show ?thesis by simp
    next
      case False
      with a have b: "bfsLoop grid gridSize maxTiles [] [] [(sx, sy)] = Inr tiles"
        by (simp add: findConnectedWaterTiles_def del: bfsLoop.simps)
      have "int (length tiles) \<le> maxTiles \<and> distinct tiles \<and>
            (\<forall>c \<in> set tiles. waterReachable grid gridSize (sx, sy) c)"
        by (rule bfsLoop_inv[OF b]) (use assms in simp_all)
      then show ?thesis
        using waterReachable_isWater[of grid gridSize "(sx, sy)"]
        by (auto simp: isWaterTile_def)
    qed
  qed
next
  show "gridCovers grid gridSize \<longrightarrow>
        (\<exists>tiles. findConnectedWaterTiles (Some grid) gridSize sx sy maxTiles = Inr tiles)"
    using findConnectedWaterTiles_total by blast
next
  show "findConnectedWaterTiles None gridSize sx sy maxTiles = Inr []"
    by (rule findConnectedWaterTiles_empty)
qed

lemma pond_region:
  "findConnectedWaterTiles (Some pondGrid) 2 0 0 200 = Inr [(0, 0), (1, 0), (1, 1)]"
  by code_simp

lemma pond_covers: "gridCovers pondGrid 2"
  by code_simp

theorem findConnectedWaterTiles_region_witness:
  "(0::int) \<le> 200 \<and> gridCovers pondGrid 2
   \<and> findConnectedWaterTiles (Some pondGrid) 2 0 0 200 = Inr [(0, 0), (1, 0), (1, 1)]
   \<and> int (length [(0, 0), (1, 0), (1, 1) :: coord]) \<le> 200
   \<and> isWaterTile pondGrid 2 (1, 1)
   \<and> waterReachable pondGrid 2 (0, 0) (1, 1)"
proof -
  have h: "(0::int) \<le> 200" by simp
  from findConnectedWaterTiles_region[OF h, of pondGrid 2 0 0] pond_region
  have "\<forall>c \<in> set [(0, 0), (1, 0), (1, 1)].
          inGrid 2 c \<and> isWaterTile pondGrid 2 c \<and> waterReachable pondGrid 2 (0, 0) c"
    by blast
  then show ?thesis using pond_region pond_covers by simp
qed

text \<open>The scenario of the 5 x 5 lake: the fill from the centre returns all 25 tiles.\<close>

lemma lake_region:
  "findConnectedWaterTiles (Some lakeGrid) 5 2 2 200 =
     Inr [(2, 2), (1, 2), (3, 2), (2, 1), (2, 3), (0, 2), (1, 1), (1, 3), (4, 2), (3, 1),
          (3, 3), (2, 0), (2, 4), (0, 1), (0, 3), (1, 0), (1, 4), (4, 1), (4, 3), (3, 0),
          (3, 4), (0, 0), (0, 4), (4, 0), (4, 4)]"
  by code_simp

text \<open>
  C7. With \<open>region\<close> the tiles the flood fill finds: fewer than 3 tiles give the empty
  tour. Otherwise every tour returned has exactly \<open>min 6 (max 2 (size div 10))\<close>
  waypoints, between 2 and 6, and starts with the waypoints of the spaced selection,
  which lie at distance at least 3 from each other; and a tour is returned whenever the
  draws (each in \<open>[0,1)\<close>) name at least that many different tiles.
\<close>

theorem generateTourWaypoints_count_and_spacing:
  assumes "findConnectedWaterTiles grid gridSize sx sy 200 = Inr region"
  shows "(length region < 3 \<longrightarrow>
            generateTourWaypoints proj grid gridSize sx sy order rs = Some (Inr []))
       \<and> (3 \<le> length region \<longrightarrow>
            (\<forall>wps. generateTourWaypoints proj grid gridSize sx sy order rs = Some (Inr wps) \<longrightarrow>
               length wps = min 6 (max 2 (length region div 10)) \<and>
               2 \<le> length wps \<and> length wps \<le> 6 \<and>
               (\<exists>extra. wps = fst (spacedSelect proj
                    (take (numWaypointsFor region) (sortedTiles region order)) [] []) @ extra) \<and>
               spacedApart (fst (spacedSelect proj
                    (take (numWaypointsFor region) (sortedTiles region order)) [] [])))
          \<and> ((\<forall>r \<in> set rs. 0 \<le> r \<and> r < 1) \<and>
               numWaypointsFor region \<le> card (drawnIndex region ` set rs) \<longrightarrow>
               (\<exists>wps. generateTourWaypoints proj grid gridSize sx sy order rs
                        = Some (Inr wps))))"
proof (intro conjI allI impI)
  note g = generateTourWaypoints_region[OF assms]
  show "generateTourWaypoints proj grid gridSize sx sy order rs = Some (Inr [])"
    if "length region < 3"
    using that g by (simp add: tourFrom_small)
  show "\<exists>wps. generateTourWaypoints proj grid gridSize sx sy order rs = Some (Inr wps)"
    if "(\<forall>r \<in> set rs. 0 \<le> r \<and> r < 1) \<and>
        numWaypointsFor region \<le> card (drawnIndex region ` set rs)"
    using that g tourFrom_returns[of rs region proj order] by simp
  fix wps
  assume n: "3 \<le> length region"
    and w: "generateTourWaypoints proj grid gridSize sx sy order rs = Some (Inr wps)"
  from w g have t: "tourFrom proj region order rs = Some (Inr wps)" by simp
  note r = tourFrom_result[OF n t]
  from r show "length wps = min 6 (max 2 (length region div 10))"
    by (simp add: numWaypointsFor_def)
  from r numWaypointsFor_range[of region] show "2 \<le> length wps" "length wps \<le> 6" by simp_all
  from r show "\<exists>extra. wps = fst (spacedSelect proj
       (take (numWaypointsFor region) (sortedTiles region order)) [] []) @ extra" by blast
  from r show "spacedApart (fst (spacedSelect proj
       (take (numWaypointsFor region) (sortedTiles region order)) [] []))" by blast
qed

theorem generateTourWaypoints_witness:
  "findConnectedWaterTiles (Some pondGrid) 2 0 0 200 = Inr [(0, 0), (1, 0), (1, 1)]
   \<and> (\<exists>wps. generateTourWaypoints flatProjection (Some pondGrid) 2 0 0 [0, 1, 2] [0, 1 / 2]
               = Some (Inr wps)
        \<and> length wps = 2)"
proof -
  let ?region = "[(0, 0), (1, 0), (1, 1)] :: coord list"
  have d: "drawnIndex ?region 0 = 0" "drawnIndex ?region (1 / 2) = 1"
    by (simp_all add: drawnIndex_def)
  have c: "numWaypointsFor ?region \<le> card (drawnIndex ?region ` set [0, 1 / 2])"
    by (simp add: d numWaypointsFor_def)
  have b: "\<forall>r \<in> set [0, 1 / 2 :: real]. 0 \<le> r \<and> r < 1" by simp
  note t = generateTourWaypoints_count_and_spacing[OF pond_region,
      of flatProjection "[0, 1, 2]" "[0, 1 / 2]"]
  from t b c obtain wps where
    w: "generateTourWaypoints flatProjection (Some pondGrid) 2 0 0 [0, 1, 2] [0, 1 / 2]
          = Some (Inr wps)" by auto
  with t have "length wps = 2" by simp
  with w pond_region show ?thesis by blast
qed











section \<open>Totality\<close>






lemma hypot_less_iff:
  assumes "0 < d"
  shows "hypot a b < d \<longleftrightarrow> a\<^sup>2 + b\<^sup>2 < d\<^sup>2"
proof -
  have "sqrt (d\<^sup>2) = d" using assms by simp
  then have "hypot a b < d \<longleftrightarrow> sqrt (a\<^sup>2 + b\<^sup>2) < sqrt (d\<^sup>2)" by (simp add: hypot_def)
  then show ?thesis by (simp only: real_sqrt_less_iff)
qed

lemma tooClose_code [code]:
  "tooClose tile waypoints \<longleftrightarrow>
     (\<exists>wp \<in> set waypoints. (fst tile - wpTileX wp)\<^sup>2 + (snd tile - wpTileY wp)\<^sup>2 < 9)"
proof -
  have "wpDist tile wp < 3 \<longleftrightarrow> (fst tile - wpTileX wp)\<^sup>2 + (snd tile - wpTileY wp)\<^sup>2 < 9" for wp
  proof -
    have "wpDist tile wp < 3 \<longleftrightarrow>
          (real_of_int (fst tile - wpTileX wp))\<^sup>2 + (real_of_int (snd tile - wpTileY wp))\<^sup>2 < 3\<^sup>2"
      unfolding wpDist_def by (rule hypot_less_iff) simp
    also have "\<dots> \<longleftrightarrow> real_of_int ((fst tile - wpTileX wp)\<^sup>2 + (snd tile - wpTileY wp)\<^sup>2) < real_of_int 9"
      by simp
    also have "\<dots> \<longleftrightarrow> (fst tile - wpTileX wp)\<^sup>2 + (snd tile - wpTileY wp)\<^sup>2 < 9"
      by (simp only: of_int_less_iff)
    finally show ?thesis .
  qed
  then show ?thesis by (simp add: tooClose_def)
qed

lemma pedestrianNearby_code [code]:
  "pedestrianNearby pedestrians c \<longleftrightarrow>
     (\<exists>p \<in> set pedestrians. (tileX p - fst c)\<^sup>2 + (tileY p - snd c)\<^sup>2 < 25)"
proof -
  have h: "hypot (real_of_int (tileX p - fst c)) (real_of_int (tileY p - snd c)) < 5
        \<longleftrightarrow> (tileX p - fst c)\<^sup>2 + (tileY p - snd c)\<^sup>2 < 25" for p :: Pedestrian
  proof -
    have "hypot (real_of_int (tileX p - fst c)) (real_of_int (tileY p - snd c)) < 5 \<longleftrightarrow>
          (real_of_int (tileX p - fst c))\<^sup>2 + (real_of_int (tileY p - snd c))\<^sup>2 < 5\<^sup>2"
      by (rule hypot_less_iff) simp
    also have "\<dots> \<longleftrightarrow> real_of_int ((tileX p - fst c)\<^sup>2 + (tileY p - snd c)\<^sup>2) < real_of_int 25"
      by simp
    also have "\<dots> \<longleftrightarrow> (tileX p - fst c)\<^sup>2 + (tileY p - snd c)\<^sup>2 < 25"
      by (simp only: of_int_less_iff)
    finally show ?thesis .
  qed
  show ?thesis unfolding pedestrianNearby_def by (simp only: h)
qed








end
